theory Spec2Isabelle
  imports Complex_Main "HOL-Library.Word"
begin

unbundle bit_operations_syntax

section \<open>The ATC container reader of atc2json.go\<close>

text \<open>
  The embedding follows \<^verbatim>\<open>atc2json/atc2json.go\<close>. Go's \<^verbatim>\<open>byte\<close>, \<^verbatim>\<open>uint16\<close>,
  \<^verbatim>\<open>uint32\<close> are words of that width. An \<^verbatim>\<open>int16\<close> and an \<^verbatim>\<open>int32\<close> are words
  too, read as two's complement by \<open>sint\<close>; Go's signed addition wraps, as word addition
  does. A Go slice that may be \<^verbatim>\<open>nil\<close> is an \<open>option\<close> of a list: \<open>None\<close> is
  \<^verbatim>\<open>nil\<close>, \<open>Some []\<close> is the empty slice \<^verbatim>\<open>make\<close> returns for length 0.

  The input slice \<^verbatim>\<open>atcData\<close> is a list of bytes whose capacity is its length, so that
  a slice expression beyond the length panics.
\<close>

type_synonym byte = "8 word"
type_synonym uint16 = "16 word"
type_synonym uint32 = "32 word"
type_synonym int16 = "16 word"
type_synonym int32 = "32 word"

subsection \<open>Outcomes\<close>

text \<open>
  \<^verbatim>\<open>io.EOF\<close> and \<^verbatim>\<open>io.ErrUnexpectedEOF\<close> are the two errors a read can give. Every
  \<^verbatim>\<open>fmt.Errorf\<close> of the source is a constructor of \<open>error\<close>, carrying what the message
  prints. A run-time panic is an outcome of its own: it is neither a returned error nor a
  returned value.
\<close>

datatype read_error = EOF | ErrUnexpectedEOF

datatype error =
    WrongFileSignature
  | ErrorReadingFile read_error
  | ErrorReadingBuffer read_error
  | ErrorReadingInput read_error
  | ChecksumDoesNotMatch uint32 uint32
  | UnsupportedValue

datatype panic = NilPointerDereference | SliceBoundsOutOfRange

datatype 'a outcome = Return 'a | Fail error | Panic panic

text \<open>
  The source has no error types, only messages. The specification sorts them into two
  kinds: a failed checksum comparison is a \<open>ChecksumError\<close>, every other error of the
  parser is a \<open>FormatError\<close>. \<open>UnsupportedValue\<close> is the error of \<^verbatim>\<open>json.Marshal\<close>, which
  is not an error of the parser.
\<close>

datatype error_kind = FormatError | ChecksumError | MarshalError

fun kind_of :: "error \<Rightarrow> error_kind" where
  "kind_of (ChecksumDoesNotMatch stored calculated) = ChecksumError"
| "kind_of UnsupportedValue = MarshalError"
| "kind_of WrongFileSignature = FormatError"
| "kind_of (ErrorReadingFile e) = FormatError"
| "kind_of (ErrorReadingBuffer e) = FormatError"
| "kind_of (ErrorReadingInput e) = FormatError"

subsection \<open>The reader\<close>

text \<open>
  \<^verbatim>\<open>bytes.NewReader(atcData)\<close> is the read offset \<open>i\<close> into \<open>data\<close>; every read returns
  the new offset. \<open>ReadFull data i n\<close> is \<^verbatim>\<open>io.ReadFull\<close> on a buffer of \<open>n\<close> bytes: no
  read at all for an empty buffer, \<^verbatim>\<open>io.EOF\<close> when nothing is left, and
  \<^verbatim>\<open>io.ErrUnexpectedEOF\<close> after consuming what is left when that is too little.
  \<open>Reader_Read\<close> is one call of \<^verbatim>\<open>(*bytes.Reader).Read\<close>: \<^verbatim>\<open>io.EOF\<close> when nothing is
  left, and otherwise as many bytes as there are, up to \<open>n\<close>, with no error.
\<close>

definition ReadFull :: "byte list \<Rightarrow> nat \<Rightarrow> nat \<Rightarrow> nat \<times> (read_error + byte list)" where
  "ReadFull data i n =
     (if n = 0 then (i, Inr [])
      else if length data \<le> i then (i, Inl EOF)
      else if length data - i < n then (length data, Inl ErrUnexpectedEOF)
      else (i + n, Inr (take n (drop i data))))"

definition Reader_Read :: "byte list \<Rightarrow> nat \<Rightarrow> nat \<Rightarrow> nat \<times> (read_error + nat)" where
  "Reader_Read data i n =
     (if length data \<le> i then (i, Inl EOF)
      else (i + min n (length data - i), Inr (min n (length data - i))))"

text \<open>\<^verbatim>\<open>binary.LittleEndian.Uint16\<close> and \<^verbatim>\<open>Uint32\<close>.\<close>

definition Uint16 :: "byte list \<Rightarrow> uint16" where
  "Uint16 b = ucast (b ! 0) OR push_bit 8 (ucast (b ! 1))"

definition Uint32 :: "byte list \<Rightarrow> uint32" where
  "Uint32 b = ucast (b ! 0) OR push_bit 8 (ucast (b ! 1))
     OR push_bit 16 (ucast (b ! 2)) OR push_bit 24 (ucast (b ! 3))"

subsection \<open>The checksum\<close>

text \<open>
  \<^verbatim>\<open>calcChecksum\<close>: the accumulator is an \<^verbatim>\<open>int32\<close>, and \<^verbatim>\<open>int32(b)\<close> of a \<^verbatim>\<open>byte\<close>
  (an unsigned 8-bit integer) is its value 0..255, which is \<open>ucast\<close>.
\<close>

definition calcChecksum :: "byte list \<Rightarrow> uint32" where
  "calcChecksum data = foldl (\<lambda>(sum :: int32) b. sum + ucast b) 0 data"

text \<open>
  \<^verbatim>\<open>verifyChecksum\<close>: the error of reading the stored checksum is dropped, so a checksum
  cut short reads as 0, with the reader at the end. The slice
  \<^verbatim>\<open>data[blockStart : blockStart+8+int64(blockLen)]\<close> panics beyond the buffer.
\<close>

definition read_uint32 :: "byte list \<Rightarrow> nat \<Rightarrow> nat \<times> uint32" where
  "read_uint32 data i =
     (case ReadFull data i 4 of (i', Inl e) \<Rightarrow> (i', 0) | (i', Inr b) \<Rightarrow> (i', Uint32 b))"

definition verifyChecksum :: "byte list \<Rightarrow> nat \<Rightarrow> uint32 \<Rightarrow> nat \<Rightarrow> nat outcome" where
  "verifyChecksum data blockStart blockLen i =
     (let (i', checksum) = read_uint32 data i
      in if length data < blockStart + 8 + unat blockLen then Panic SliceBoundsOutOfRange
         else let sum = calcChecksum (take (8 + unat blockLen) (drop blockStart data))
              in if checksum \<noteq> sum then Fail (ChecksumDoesNotMatch checksum sum)
                 else Return i')"

text \<open>
  The checksum as the specification words it: every byte read as a signed 8-bit integer,
  summed modulo \<open>2 ^ 32\<close>.
\<close>

definition signed_byte_sum :: "byte list \<Rightarrow> uint32" where
  "signed_byte_sum data = word_of_int (sum_list (map sint data))"

text \<open>The same sum with every byte read as an unsigned 8-bit integer.\<close>

definition unsigned_byte_sum :: "byte list \<Rightarrow> uint32" where
  "unsigned_byte_sum data = word_of_nat (sum_list (map unat data))"

subsection \<open>The records of the container\<close>

definition AtcFileSignature :: "byte list" where
  "AtcFileSignature = [0x41, 0x4C, 0x49, 0x56, 0x45, 0, 0, 0]"

definition ChecksumLength :: uint32 where
  "ChecksumLength = 4"

record AtcFileHeader =
  FileSignature :: "byte list"
  FileVersion :: uint32

record BlockHeader =
  BlockId :: "byte list"
  Length :: uint32

record FmtBlock =
  Format :: byte
  Frequency :: uint16
  Resolution :: uint16
  Flags :: byte
  Reserved :: uint16

record InfoBlock =
  DateRecorded :: "byte list"
  RecordingUUID :: "byte list"
  PhoneUDID :: "byte list"
  PhoneModel :: "byte list"
  RecorderSoftware :: "byte list"
  RecorderHardware :: "byte list"
  Location :: "byte list"

text \<open>
  \<^verbatim>\<open>binary.Read\<close> into a struct reads as many bytes as the fields take, with no padding
  (12 for the file header, 8 for a block header, 8 for the format block, 264 for the info
  block), and on an error leaves the struct as it was.
\<close>

definition decode_AtcFileHeader :: "byte list \<Rightarrow> AtcFileHeader" where
  "decode_AtcFileHeader b = \<lparr>FileSignature = take 8 b, FileVersion = Uint32 (drop 8 b)\<rparr>"

definition decode_BlockHeader :: "byte list \<Rightarrow> BlockHeader" where
  "decode_BlockHeader b = \<lparr>BlockId = take 4 b, Length = Uint32 (drop 4 b)\<rparr>"

definition decode_FmtBlock :: "byte list \<Rightarrow> FmtBlock" where
  "decode_FmtBlock b =
     \<lparr>Format = b ! 0, Frequency = Uint16 (drop 1 b), Resolution = Uint16 (drop 3 b),
      Flags = b ! 5, Reserved = Uint16 (drop 6 b)\<rparr>"

definition decode_InfoBlock :: "byte list \<Rightarrow> InfoBlock" where
  "decode_InfoBlock b =
     \<lparr>DateRecorded = take 32 b,
      RecordingUUID = take 40 (drop 32 b),
      PhoneUDID = take 44 (drop 72 b),
      PhoneModel = take 32 (drop 116 b),
      RecorderSoftware = take 32 (drop 148 b),
      RecorderHardware = take 32 (drop 180 b),
      Location = take 52 (drop 212 b)\<rparr>"

text \<open>A slice of \<^verbatim>\<open>int16\<close>: two bytes each, the low byte first.\<close>

fun decode_int16s :: "byte list \<Rightarrow> int16 list" where
  "decode_int16s (b0 # b1 # bs) = Uint16 [b0, b1] # decode_int16s bs"
| "decode_int16s bs = []"

subsection \<open>The decoded document\<close>

text \<open>
  The two \<^verbatim>\<open>float32\<close> fields take few values. \<^verbatim>\<open>float32(x)\<close> of a \<^verbatim>\<open>uint16\<close> is exact.
  The quotient \<^verbatim>\<open>1e6 / float32(x)\<close> is \<open>+Inf\<close> for \<open>x = 0\<close> (the division of floats
  does not panic), and otherwise the quotient, between 15 and \<open>10 ^ 6\<close>, rounded to the
  nearest number with a significand of 24 bits, ties to even.
\<close>

datatype float32 = Finite rat | PosInf

function exponent2 :: "rat \<Rightarrow> nat" where
  "exponent2 x = (if x < 2 then 0 else Suc (exponent2 (x / 2)))"
  by pat_completeness auto
termination
proof (relation "measure (\<lambda>x. nat \<lfloor>x\<rfloor>)")
  show "wf (measure (\<lambda>x::rat. nat \<lfloor>x\<rfloor>))" by simp
next
  fix x :: rat
  assume "\<not> x < 2"
  then have "x / 2 \<le> x - 1" by simp
  then have "\<lfloor>x / 2\<rfloor> \<le> \<lfloor>x - 1\<rfloor>" by (rule floor_mono)
  moreover have "0 < \<lfloor>x\<rfloor>" using \<open>\<not> x < 2\<close> by simp
  ultimately show "(x / 2, x) \<in> measure (\<lambda>x. nat \<lfloor>x\<rfloor>)" by simp
qed

definition round_half_even :: "rat \<Rightarrow> int" where
  "round_half_even q =
     (let f = \<lfloor>q\<rfloor>; d = q - of_int f
      in if d < 1 / 2 then f else if 1 / 2 < d then f + 1 else if even f then f else f + 1)"

definition round_float32 :: "rat \<Rightarrow> rat" where
  "round_float32 x =
     (let e = exponent2 x
      in of_int (round_half_even (x * 2 ^ 23 / 2 ^ e)) * 2 ^ e / 2 ^ 23)"

definition float32_of_uint16 :: "uint16 \<Rightarrow> float32" where
  "float32_of_uint16 x = Finite (of_nat (unat x))"

definition gain_of_resolution :: "uint16 \<Rightarrow> float32" where
  "gain_of_resolution x =
     (if x = 0 then PosInf else Finite (round_float32 (1000000 / of_nat (unat x))))"

record EcgSamples =
  LeadI :: "int16 list option"
  LeadII :: "int16 list option"
  LeadIII :: "int16 list option"
  AVR :: "int16 list option"
  AVL :: "int16 list option"
  AVF :: "int16 list option"

text \<open>
  The field \<^verbatim>\<open>Frequency\<close> of \<^verbatim>\<open>EcgData\<close> is \<open>EcgFrequency\<close> here, the name being taken
  by the format block's field.
\<close>

record EcgData =
  EcgFrequency :: float32
  MainsFrequency :: int
  Gain :: float32
  Samples :: EcgSamples
  Info :: "InfoBlock option"

subsection \<open>Parse\<close>

text \<open>The local variables of \<^verbatim>\<open>Parse\<close> that the block loop assigns.\<close>

record ParseState =
  leadISamples :: "int16 list option"
  leadIISamples :: "int16 list option"
  leadIIISamples :: "int16 list option"
  aVRSamples :: "int16 list option"
  aVLSamples :: "int16 list option"
  aVFSamples :: "int16 list option"
  fmtBlock :: "FmtBlock option"
  infoBlock :: "InfoBlock option"

definition initial_state :: ParseState where
  "initial_state =
     \<lparr>leadISamples = None, leadIISamples = None, leadIIISamples = None, aVRSamples = None,
      aVLSamples = None, aVFSamples = None, fmtBlock = None, infoBlock = None\<rparr>"

text \<open>The bytes of a block tag, \<^verbatim>\<open>string(blockHeader.BlockId[:])\<close> being compared to a literal.\<close>

definition tag :: "string \<Rightarrow> byte list" where
  "tag s = map of_char s"

text \<open>
  The two fixed records: \<^verbatim>\<open>binary.Read\<close> of the record, then \<^verbatim>\<open>verifyChecksum\<close>. The
  declared length of the block is used by the checksum only.
\<close>

definition read_record :: "byte list \<Rightarrow> nat \<Rightarrow> uint32 \<Rightarrow> nat \<Rightarrow> nat \<Rightarrow> (nat \<times> byte list) outcome" where
  "read_record data blockStart blockLen i n =
     (case ReadFull data i n of
        (i', Inl e) \<Rightarrow> Fail (ErrorReadingBuffer e)
      | (i', Inr b) \<Rightarrow>
          (case verifyChecksum data blockStart blockLen i' of
             Return i'' \<Rightarrow> Return (i'', b)
           | Fail e \<Rightarrow> Fail e
           | Panic p \<Rightarrow> Panic p))"

text \<open>
  The six sample blocks share their code: \<^verbatim>\<open>make([]int16, blockHeader.Length/2)\<close>, a
  \<^verbatim>\<open>binary.Read\<close> of that many samples (two bytes each), then \<^verbatim>\<open>verifyChecksum\<close>.
\<close>

definition read_samples :: "byte list \<Rightarrow> nat \<Rightarrow> uint32 \<Rightarrow> nat \<Rightarrow> (nat \<times> int16 list) outcome" where
  "read_samples data blockStart blockLen i =
     (case read_record data blockStart blockLen i (2 * unat (blockLen div 2)) of
        Return (i'', b) \<Rightarrow> Return (i'', decode_int16s b)
      | Fail e \<Rightarrow> Fail e
      | Panic p \<Rightarrow> Panic p)"

text \<open>
  The body of the \<^verbatim>\<open>switch\<close>, from the reader's offset \<open>i\<close> after the block header. The
  buffer of the default case has \<^verbatim>\<open>blockHeader.Length+ChecksumLength\<close> bytes, a sum of
  \<^verbatim>\<open>uint32\<close>, and is filled by one \<^verbatim>\<open>Read\<close>.
\<close>

definition switch_block ::
  "byte list \<Rightarrow> nat \<Rightarrow> BlockHeader \<Rightarrow> nat \<Rightarrow> ParseState \<Rightarrow> (nat \<times> ParseState) outcome" where
  "switch_block data blockStart blockHeader i st =
     (let blockType = BlockId blockHeader; blockLen = Length blockHeader
      in if blockType = tag ''fmt '' then
           (case read_record data blockStart blockLen i 8 of
              Return (i', b) \<Rightarrow> Return (i', st\<lparr>fmtBlock := Some (decode_FmtBlock b)\<rparr>)
            | Fail e \<Rightarrow> Fail e | Panic p \<Rightarrow> Panic p)
         else if blockType = tag ''info'' then
           (case read_record data blockStart blockLen i 264 of
              Return (i', b) \<Rightarrow> Return (i', st\<lparr>infoBlock := Some (decode_InfoBlock b)\<rparr>)
            | Fail e \<Rightarrow> Fail e | Panic p \<Rightarrow> Panic p)
         else if blockType = tag ''ecg '' then
           (case read_samples data blockStart blockLen i of
              Return (i', xs) \<Rightarrow> Return (i', st\<lparr>leadISamples := Some xs\<rparr>)
            | Fail e \<Rightarrow> Fail e | Panic p \<Rightarrow> Panic p)
         else if blockType = tag ''ecg2'' then
           (case read_samples data blockStart blockLen i of
              Return (i', xs) \<Rightarrow> Return (i', st\<lparr>leadIISamples := Some xs\<rparr>)
            | Fail e \<Rightarrow> Fail e | Panic p \<Rightarrow> Panic p)
         else if blockType = tag ''ecg3'' then
           (case read_samples data blockStart blockLen i of
              Return (i', xs) \<Rightarrow> Return (i', st\<lparr>leadIIISamples := Some xs\<rparr>)
            | Fail e \<Rightarrow> Fail e | Panic p \<Rightarrow> Panic p)
         else if blockType = tag ''ecg4'' then
           (case read_samples data blockStart blockLen i of
              Return (i', xs) \<Rightarrow> Return (i', st\<lparr>aVRSamples := Some xs\<rparr>)
            | Fail e \<Rightarrow> Fail e | Panic p \<Rightarrow> Panic p)
         else if blockType = tag ''ecg5'' then
           (case read_samples data blockStart blockLen i of
              Return (i', xs) \<Rightarrow> Return (i', st\<lparr>aVLSamples := Some xs\<rparr>)
            | Fail e \<Rightarrow> Fail e | Panic p \<Rightarrow> Panic p)
         else if blockType = tag ''ecg6'' then
           (case read_samples data blockStart blockLen i of
              Return (i', xs) \<Rightarrow> Return (i', st\<lparr>aVFSamples := Some xs\<rparr>)
            | Fail e \<Rightarrow> Fail e | Panic p \<Rightarrow> Panic p)
         else
           (case Reader_Read data i (unat (blockLen + ChecksumLength)) of
              (i', Inl e) \<Rightarrow> Fail (ErrorReadingInput e)
            | (i', Inr n) \<Rightarrow> Return (i', st)))"

lemma ReadFull_mono: "ReadFull data i n = (i', r) \<Longrightarrow> i \<le> i'"
  by (auto simp: ReadFull_def split: if_splits)

lemma read_uint32_mono: "read_uint32 data i = (i', c) \<Longrightarrow> i \<le> i'"
  by (auto simp: read_uint32_def split: prod.splits sum.splits dest: ReadFull_mono)

lemma verifyChecksum_mono: "verifyChecksum data blockStart blockLen i = Return i' \<Longrightarrow> i \<le> i'"
  by (auto simp: verifyChecksum_def Let_def split: prod.splits if_splits dest: read_uint32_mono)

lemma read_record_mono: "read_record data blockStart blockLen i n = Return (i', b) \<Longrightarrow> i \<le> i'"
  by (auto simp: read_record_def split: prod.splits sum.splits outcome.splits
      dest!: ReadFull_mono verifyChecksum_mono)

lemma read_samples_mono: "read_samples data blockStart blockLen i = Return (i', xs) \<Longrightarrow> i \<le> i'"
  by (auto simp: read_samples_def split: outcome.splits dest: read_record_mono)

lemma Reader_Read_mono: "Reader_Read data i n = (i', r) \<Longrightarrow> i \<le> i'"
  by (auto simp: Reader_Read_def split: if_splits)

lemma switch_block_mono:
  "switch_block data blockStart blockHeader i st = Return (i', st') \<Longrightarrow> i \<le> i'"
  by (auto simp: switch_block_def Let_def
      split: if_splits outcome.splits prod.splits sum.splits
      dest: read_record_mono read_samples_mono Reader_Read_mono)

text \<open>
  The block loop. \<open>blockStart\<close>, which is \<^verbatim>\<open>dataLen - reader.Len()\<close>, is the reader's
  offset \<open>i\<close>. A block header that cannot be read ends the loop when nothing was left
  (\<^verbatim>\<open>io.EOF\<close>) and is an error otherwise.
\<close>

function read_blocks :: "byte list \<Rightarrow> nat \<Rightarrow> ParseState \<Rightarrow> ParseState outcome" where
  "read_blocks data i st =
     (case ReadFull data i 8 of
        (i', Inl EOF) \<Rightarrow> Return st
      | (i', Inl ErrUnexpectedEOF) \<Rightarrow> Fail (ErrorReadingFile ErrUnexpectedEOF)
      | (i', Inr b) \<Rightarrow>
          (case switch_block data i (decode_BlockHeader b) i' st of
             Return (i'', st') \<Rightarrow> read_blocks data i'' st'
           | Fail e \<Rightarrow> Fail e
           | Panic p \<Rightarrow> Panic p))"
  by pat_completeness auto
termination
proof (relation "measure (\<lambda>(data, i, st). length data - i)")
  show "wf (measure (\<lambda>(data :: byte list, i :: nat, st :: ParseState). length data - i))"
    by simp
next
  fix data :: "byte list" and i :: nat and st :: ParseState
    and x i' r b y i'' st'
  assume rd: "(i', r) = ReadFull data i 8" and r: "r = Inr b"
    and sw: "switch_block data i (decode_BlockHeader b) i' st = Return y"
    and y: "(i'', st') = y"
  from rd r have "i' = i + 8" and "i + 8 \<le> length data"
    by (auto simp: ReadFull_def split: if_splits)
  moreover from sw y have "i' \<le> i''"
    by (auto dest: switch_block_mono)
  ultimately show "((data, i'', st'), (data, i, st)) \<in> measure (\<lambda>(data, i, st). length data - i)"
    by simp
qed

declare read_blocks.simps [simp del]

text \<open>
  After the loop: \<^verbatim>\<open>fmtBlock.Resolution\<close> dereferences a pointer that is \<^verbatim>\<open>nil\<close> when no
  format block was read. Each lead is assigned when its slice is not \<^verbatim>\<open>nil\<close>, and is
  \<^verbatim>\<open>nil\<close> in the fresh result otherwise.
\<close>

definition build_result :: "ParseState \<Rightarrow> EcgData outcome" where
  "build_result st =
     (case fmtBlock st of
        None \<Rightarrow> Panic NilPointerDereference
      | Some fb \<Rightarrow>
          Return
            \<lparr>EcgFrequency = float32_of_uint16 (Frequency fb),
             MainsFrequency = (if Flags fb AND 2 \<noteq> 0 then 60 else 50),
             Gain = gain_of_resolution (Resolution fb),
             Samples =
               \<lparr>LeadI = (if leadISamples st \<noteq> None then leadISamples st else None),
                LeadII = (if leadIISamples st \<noteq> None then leadIISamples st else None),
                LeadIII = (if leadIIISamples st \<noteq> None then leadIIISamples st else None),
                AVR = (if aVRSamples st \<noteq> None then aVRSamples st else None),
                AVL = (if aVLSamples st \<noteq> None then aVLSamples st else None),
                AVF = (if aVFSamples st \<noteq> None then aVFSamples st else None)\<rparr>,
             Info = infoBlock st\<rparr>)"

text \<open>
  \<^verbatim>\<open>Parse\<close>. The error of reading the file header is dropped: a buffer of fewer than 12
  bytes leaves the header zeroed, and its signature differs from the constant.
\<close>

definition read_AtcFileHeader :: "byte list \<Rightarrow> nat \<Rightarrow> nat \<times> AtcFileHeader" where
  "read_AtcFileHeader data i =
     (case ReadFull data i 12 of
        (i', Inl e) \<Rightarrow> (i', \<lparr>FileSignature = replicate 8 0, FileVersion = 0\<rparr>)
      | (i', Inr b) \<Rightarrow> (i', decode_AtcFileHeader b))"

definition Parse :: "byte list \<Rightarrow> EcgData outcome" where
  "Parse atcData =
     (let (i, header) = read_AtcFileHeader atcData 0
      in if FileSignature header \<noteq> AtcFileSignature then Fail WrongFileSignature
         else (case read_blocks atcData i initial_state of
                 Return st \<Rightarrow> build_result st
               | Fail e \<Rightarrow> Fail e
               | Panic p \<Rightarrow> Panic p))"

subsection \<open>Convert\<close>

text \<open>
  \<^verbatim>\<open>Convert\<close> marshals the result of \<^verbatim>\<open>Parse\<close> with \<^verbatim>\<open>json.Marshal\<close>. The output is kept as
  the tree of the JSON text: the members of an object in the order of the struct's
  fields, under the keys of their tags (the field name where there is no tag), and a
  number as its value, the decimal text of a \<^verbatim>\<open>float32\<close> not being modelled. For
  \<^verbatim>\<open>json.Marshal\<close>, a \<^verbatim>\<open>nil\<close> slice and a \<^verbatim>\<open>nil\<close> pointer are \<^verbatim>\<open>null\<close>, an array of
  bytes is an array of numbers, a field tagged \<^verbatim>\<open>omitempty\<close> is left out when its slice
  has length 0 (\<^verbatim>\<open>nil\<close> or empty), and an infinite float is an error.
\<close>

datatype json = JNull | JInt int | JFloat rat | JArray "json list" | JObject "(string \<times> json) list"

definition marshal_float32 :: "float32 \<Rightarrow> json outcome" where
  "marshal_float32 x = (case x of Finite r \<Rightarrow> Return (JFloat r) | PosInf \<Rightarrow> Fail UnsupportedValue)"

definition marshal_int16s :: "int16 list option \<Rightarrow> json" where
  "marshal_int16s v = (case v of None \<Rightarrow> JNull | Some xs \<Rightarrow> JArray (map (\<lambda>x. JInt (sint x)) xs))"

definition marshal_bytes :: "byte list \<Rightarrow> json" where
  "marshal_bytes bs = JArray (map (\<lambda>b. JInt (uint b)) bs)"

definition omitempty :: "string \<Rightarrow> int16 list option \<Rightarrow> (string \<times> json) list" where
  "omitempty key v = (if v = None \<or> v = Some [] then [] else [(key, marshal_int16s v)])"

definition marshal_EcgSamples :: "EcgSamples \<Rightarrow> json" where
  "marshal_EcgSamples s =
     JObject ([(''leadI'', marshal_int16s (LeadI s))]
       @ omitempty ''leadII'' (LeadII s)
       @ omitempty ''leadIII'' (LeadIII s)
       @ omitempty ''aVR'' (AVR s)
       @ omitempty ''aVL'' (AVL s)
       @ omitempty ''aVF'' (AVF s))"

definition marshal_InfoBlock :: "InfoBlock option \<Rightarrow> json" where
  "marshal_InfoBlock v =
     (case v of
        None \<Rightarrow> JNull
      | Some ib \<Rightarrow>
          JObject
            [(''DateRecorded'', marshal_bytes (DateRecorded ib)),
             (''RecordingUUID'', marshal_bytes (RecordingUUID ib)),
             (''PhoneUDID'', marshal_bytes (PhoneUDID ib)),
             (''PhoneModel'', marshal_bytes (PhoneModel ib)),
             (''RecorderSoftware'', marshal_bytes (RecorderSoftware ib)),
             (''RecorderHardware'', marshal_bytes (RecorderHardware ib)),
             (''Location'', marshal_bytes (Location ib))])"

definition Marshal :: "EcgData \<Rightarrow> json outcome" where
  "Marshal d =
     (case marshal_float32 (EcgFrequency d) of
        Return f \<Rightarrow>
          (case marshal_float32 (Gain d) of
             Return g \<Rightarrow>
               Return (JObject
                 [(''frequency'', f),
                  (''mainsFrequency'', JInt (MainsFrequency d)),
                  (''gain'', g),
                  (''samples'', marshal_EcgSamples (Samples d)),
                  (''Info'', marshal_InfoBlock (Info d))])
           | Fail e \<Rightarrow> Fail e
           | Panic p \<Rightarrow> Panic p)
      | Fail e \<Rightarrow> Fail e
      | Panic p \<Rightarrow> Panic p)"

definition Convert :: "byte list \<Rightarrow> json outcome" where
  "Convert atcData =
     (case Parse atcData of
        Return ecgData \<Rightarrow> Marshal ecgData
      | Fail e \<Rightarrow> Fail e
      | Panic p \<Rightarrow> Panic p)"

fun field :: "string \<Rightarrow> json \<Rightarrow> json option" where
  "field key (JObject kvs) = map_of kvs key"
| "field key v = None"

section \<open>Files laid out block by block\<close>

text \<open>
  The source only reads the container. To state what it does on a well-formed file, the
  layout is written down here: integers with the low byte first, a block as its tag, the
  length of its payload, the payload, and the checksum that \<^verbatim>\<open>calcChecksum\<close> gives for
  the tag, the length and the payload; a file as the signature, the version and its
  blocks.
\<close>

definition le16 :: "uint16 \<Rightarrow> byte list" where
  "le16 w = [ucast w, ucast (drop_bit 8 w)]"

definition le32 :: "uint32 \<Rightarrow> byte list" where
  "le32 w = [ucast w, ucast (drop_bit 8 w), ucast (drop_bit 16 w), ucast (drop_bit 24 w)]"

definition encode_FmtBlock :: "FmtBlock \<Rightarrow> byte list" where
  "encode_FmtBlock fb =
     [Format fb] @ le16 (Frequency fb) @ le16 (Resolution fb) @ [Flags fb] @ le16 (Reserved fb)"

definition encode_int16s :: "int16 list \<Rightarrow> byte list" where
  "encode_int16s xs = concat (map le16 xs)"

definition block :: "string \<Rightarrow> byte list \<Rightarrow> byte list" where
  "block t payload =
     (let b = tag t @ le32 (word_of_nat (length payload)) @ payload
      in b @ le32 (calcChecksum b))"

definition atc_file :: "uint32 \<Rightarrow> byte list list \<Rightarrow> byte list" where
  "atc_file version blocks = AtcFileSignature @ le32 version @ concat blocks"

text \<open>The tags of the six sample blocks.\<close>

definition sample_tags :: "string list" where
  "sample_tags = [''ecg '', ''ecg2'', ''ecg3'', ''ecg4'', ''ecg5'', ''ecg6'']"

subsection \<open>Example inputs\<close>

text \<open>
  A sample block of one sample, whose low byte is \<open>0x80\<close>, with the checksum the code
  computes for it, \<open>465\<close>.
\<close>

definition high_byte_block :: "byte list" where
  "high_byte_block = tag ''ecg '' @ [2, 0, 0, 0] @ [0x80, 0] @ [0xD1, 0x01, 0, 0]"

text \<open>A file header and no block.\<close>

definition header_only_file :: "byte list" where
  "header_only_file = [0x41, 0x4C, 0x49, 0x56, 0x45, 0, 0, 0, 1, 0, 0, 0]"

text \<open>
  A format block (format 1, 300 Hz, resolution 500, flags 2) with its checksum 660, alone
  in a file of version 1, and in a file of version 2.
\<close>

definition fmt_300Hz :: FmtBlock where
  "fmt_300Hz = \<lparr>Format = 1, Frequency = 300, Resolution = 500, Flags = 2, Reserved = 0\<rparr>"

definition fmt_only_file :: "byte list" where
  "fmt_only_file =
     [0x41, 0x4C, 0x49, 0x56, 0x45, 0, 0, 0, 1, 0, 0, 0,
      0x66, 0x6D, 0x74, 0x20, 8, 0, 0, 0, 1, 0x2C, 0x01, 0xF4, 0x01, 2, 0, 0, 0x94, 0x02, 0, 0]"

definition fmt_only_file_v2 :: "byte list" where
  "fmt_only_file_v2 =
     [0x41, 0x4C, 0x49, 0x56, 0x45, 0, 0, 0, 2, 0, 0, 0,
      0x66, 0x6D, 0x74, 0x20, 8, 0, 0, 0, 1, 0x2C, 0x01, 0xF4, 0x01, 2, 0, 0, 0x94, 0x02, 0, 0]"

text \<open>The same file with a block \<open>ecg\<close> of the two samples 1 and -1, checksum 850.\<close>

definition fmt_ecg_file :: "byte list" where
  "fmt_ecg_file = fmt_only_file @
     [0x65, 0x63, 0x67, 0x20, 4, 0, 0, 0, 1, 0, 0xFF, 0xFF, 0x52, 0x03, 0, 0]"

text \<open>
  A block \<open>ecg2\<close> of declared length 3: payload \<open>9C 00 00\<close>, then \<open>02 00 00\<close>. The sum
  of the block header and the three payload bytes is 512, which is also the little-endian
  value of the four bytes \<open>00 02 00 00\<close> that start at the last payload byte.
\<close>

definition odd_length_file :: "byte list" where
  "odd_length_file = fmt_only_file @
     [0x65, 0x63, 0x67, 0x32, 3, 0, 0, 0, 0x9C, 0, 0, 2, 0, 0]"

text \<open>
  A block \<open>ecg2\<close> of declared length 3, payload \<open>01 00 02\<close>, followed by \<open>00 00 00\<close>:
  the sum is 359, the four bytes from the last payload byte on read as 2.
\<close>

definition odd_length_mismatch_file :: "byte list" where
  "odd_length_mismatch_file = fmt_only_file @
     [0x65, 0x63, 0x67, 0x32, 3, 0, 0, 0, 1, 0, 2, 0, 0, 0]"

text \<open>A block of the unknown tag \<open>junk\<close> that declares 100 bytes and has one.\<close>

definition short_skip_file :: "byte list" where
  "short_skip_file = fmt_only_file @ [0x6A, 0x75, 0x6E, 0x6B, 100, 0, 0, 0, 7]"

text \<open>A format block of resolution 0, with its checksum 415.\<close>

definition zero_resolution_file :: "byte list" where
  "zero_resolution_file =
     [0x41, 0x4C, 0x49, 0x56, 0x45, 0, 0, 0, 1, 0, 0, 0,
      0x66, 0x6D, 0x74, 0x20, 8, 0, 0, 0, 1, 0x2C, 0x01, 0, 0, 2, 0, 0, 0x9F, 0x01, 0, 0]"

text \<open>The document of the format block above, with the first two leads given.\<close>

definition document_300Hz :: "int16 list option \<Rightarrow> int16 list option \<Rightarrow> EcgData" where
  "document_300Hz lead1 lead2 =
     \<lparr>EcgFrequency = Finite 300, MainsFrequency = 60, Gain = Finite 2000,
      Samples = \<lparr>LeadI = lead1, LeadII = lead2, LeadIII = None, AVR = None, AVL = None,
                  AVF = None\<rparr>,
      Info = None\<rparr>"

section \<open>Reading what the layout wrote\<close>

lemma length_le16 [simp]: "length (le16 w) = 2"
  by (simp add: le16_def)

lemma length_le32 [simp]: "length (le32 w) = 4"
  by (simp add: le32_def)

lemma length_tag [simp]: "length (tag t) = length t"
  by (simp add: tag_def)

lemma length_encode_FmtBlock [simp]: "length (encode_FmtBlock fb) = 8"
  by (simp add: encode_FmtBlock_def)

lemma length_encode_int16s [simp]: "length (encode_int16s xs) = 2 * length xs"
  by (induction xs) (simp_all add: encode_int16s_def)

lemma length_block [simp]: "length (block t payload) = length t + 8 + length payload"
  by (simp add: block_def Let_def)

lemma le16_bits:
  "ucast (ucast w :: byte) OR push_bit 8 (ucast (ucast (drop_bit 8 w) :: byte)) = (w :: uint16)"
  (is "?l = w")
proof (rule bit_word_eqI)
  fix n assume "n < LENGTH(16)"
  then have n: "n < 16" by simp
  show "bit ?l n = bit w n"
    using n by (cases "n < 8") (auto simp: bit_simps)
qed

lemma le32_bits:
  "ucast (ucast w :: byte) OR push_bit 8 (ucast (ucast (drop_bit 8 w) :: byte))
     OR push_bit 16 (ucast (ucast (drop_bit 16 w) :: byte))
     OR push_bit 24 (ucast (ucast (drop_bit 24 w) :: byte)) = (w :: uint32)"
  (is "?l = w")
proof (rule bit_word_eqI)
  fix n assume "n < LENGTH(32)"
  then have n: "n < 32" by simp
  consider "n < 8" | "8 \<le> n" "n < 16" | "16 \<le> n" "n < 24" | "24 \<le> n"
    by linarith
  then show "bit ?l n = bit w n"
  proof cases
    case 1
    then show ?thesis by (auto simp: bit_simps)
  next
    case 2
    then show ?thesis by (auto simp: bit_simps)
  next
    case 3
    then show ?thesis by (auto simp: bit_simps)
  next
    case 4
    with n show ?thesis by (auto simp: bit_simps)
  qed
qed

lemma Uint16_le16: "Uint16 (le16 w @ rest) = w"
  by (simp add: Uint16_def le16_def le16_bits)

lemma Uint32_le32: "Uint32 (le32 w @ rest) = w"
  by (simp add: Uint32_def le32_def le32_bits)

lemma decode_encode_int16s: "decode_int16s (encode_int16s xs) = xs"
proof (induction xs)
  case Nil
  then show ?case by (simp add: encode_int16s_def)
next
  case (Cons x xs)
  have "encode_int16s (x # xs) = ucast x # ucast (drop_bit 8 x) # encode_int16s xs"
    by (simp add: encode_int16s_def le16_def)
  moreover have "Uint16 [ucast x, ucast (drop_bit 8 x)] = x"
    using Uint16_le16 [of x "[]"] by (simp add: le16_def)
  ultimately show ?case using Cons.IH by simp
qed

lemma decode_encode_FmtBlock: "decode_FmtBlock (encode_FmtBlock fb) = (fb :: FmtBlock)"
  by (simp add: decode_FmtBlock_def encode_FmtBlock_def le16_def Uint16_def le16_bits)

lemma decode_BlockHeader_tag:
  "length t = 4 \<Longrightarrow> decode_BlockHeader (tag t @ le32 n) = \<lparr>BlockId = tag t, Length = n\<rparr>"
  using Uint32_le32 [of n "[]"] by (simp add: decode_BlockHeader_def)

lemma block_layout:
  "block t payload @ rest =
     (tag t @ le32 (word_of_nat (length payload))) @ payload
       @ le32 (calcChecksum ((tag t @ le32 (word_of_nat (length payload))) @ payload)) @ rest"
  by (simp add: block_def Let_def)

lemma ReadFull_prefix:
  assumes "drop i data = b @ rest"
  shows "ReadFull data i (length b) = (i + length b, Inr b)"
proof (cases "b = []")
  case True
  then show ?thesis by (simp add: ReadFull_def)
next
  case False
  from assms have l: "length data - i = length b + length rest"
    by (metis length_append length_drop)
  with False have "\<not> length data \<le> i" "\<not> length data - i < length b"
    by auto
  moreover from assms have "take (length b) (drop i data) = b" by simp
  ultimately show ?thesis using False by (simp add: ReadFull_def)
qed

lemma drop_prefix:
  assumes "drop i data = b @ rest"
  shows "drop (i + length b) data = rest"
proof -
  have "drop (i + length b) data = drop (length b) (drop i data)"
    by (simp add: add.commute)
  then show ?thesis using assms by simp
qed

lemma read_uint32_le32:
  assumes "drop i data = le32 c @ rest"
  shows "read_uint32 data i = (i + 4, c)"
  using ReadFull_prefix [OF assms] Uint32_le32 [of c "[]"]
  by (simp add: read_uint32_def)

text \<open>A record followed by the checksum of its block is read and accepted.\<close>

lemma read_record_ok:
  assumes d: "drop blockStart data = hdr @ payload @ le32 (calcChecksum (hdr @ payload)) @ rest"
    and hdr: "length hdr = 8"
    and len: "unat blockLen = length payload"
  shows "read_record data blockStart blockLen (blockStart + 8) (length payload) =
     Return (blockStart + 12 + length payload, payload)"
proof -
  have "length (drop blockStart data) =
      length (hdr @ payload @ le32 (calcChecksum (hdr @ payload)) @ rest)"
    by (simp only: d)
  then have total: "length data - blockStart = 12 + length payload + length rest"
    using hdr by simp
  have d8: "drop (blockStart + 8) data = payload @ le32 (calcChecksum (hdr @ payload)) @ rest"
    using drop_prefix [OF d] hdr by simp
  have dn: "drop (blockStart + 8 + length payload) data =
      le32 (calcChecksum (hdr @ payload)) @ rest"
    using drop_prefix [OF d8] by simp
  have rf: "ReadFull data (blockStart + 8) (length payload) =
      (blockStart + 8 + length payload, Inr payload)"
    using ReadFull_prefix [OF d8] by simp
  have ru: "read_uint32 data (blockStart + 8 + length payload) =
      (blockStart + 8 + length payload + 4, calcChecksum (hdr @ payload))"
    by (rule read_uint32_le32 [OF dn])
  have span: "take (8 + unat blockLen) (drop blockStart data) = hdr @ payload"
    using d hdr len by simp
  have inr: "\<not> length data < blockStart + 8 + unat blockLen"
    using total len by linarith
  show ?thesis
    by (simp add: read_record_def rf verifyChecksum_def ru span inr)
qed

subsection \<open>Steps of the block loop\<close>

lemma read_blocks_header:
  assumes "drop i data = hdr @ rest" and "length hdr = 8"
  shows "read_blocks data i st =
     (case switch_block data i (decode_BlockHeader hdr) (i + 8) st of
        Return (i'', st') \<Rightarrow> read_blocks data i'' st'
      | Fail e \<Rightarrow> Fail e
      | Panic p \<Rightarrow> Panic p)"
  using ReadFull_prefix [OF assms(1)] assms(2)
  by (subst read_blocks.simps) simp

lemma read_blocks_end: "length data \<le> i \<Longrightarrow> read_blocks data i st = Return st"
  by (subst read_blocks.simps) (simp add: ReadFull_def)

lemma read_blocks_fmt:
  assumes d: "drop i data = block ''fmt '' payload @ rest" and len: "length payload = 8"
  shows "read_blocks data i st =
     read_blocks data (i + 20) (st\<lparr>fmtBlock := Some (decode_FmtBlock payload)\<rparr>)"
proof -
  let ?hdr = "tag ''fmt '' @ le32 (word_of_nat (length payload))"
  have d': "drop i data = ?hdr @ payload @ le32 (calcChecksum (?hdr @ payload)) @ rest"
    using d by (simp only: block_layout)
  have rr: "read_record data i (word_of_nat (length payload)) (i + 8) (length payload) =
      Return (i + 12 + length payload, payload)"
    by (rule read_record_ok [OF d']) (simp_all add: len)
  have sw: "switch_block data i (decode_BlockHeader ?hdr) (i + 8) st =
      Return (i + 20, st\<lparr>fmtBlock := Some (decode_FmtBlock payload)\<rparr>)"
    using rr by (simp add: switch_block_def decode_BlockHeader_tag len)
  show ?thesis
    by (subst read_blocks_header [OF d']) (simp_all add: sw)
qed

lemma read_blocks_ecg:
  assumes d: "drop i data = block ''ecg '' payload @ rest"
    and ev: "even (length payload)" and lt: "length payload < 2 ^ 32"
  shows "read_blocks data i st =
     read_blocks data (i + 12 + length payload)
       (st\<lparr>leadISamples := Some (decode_int16s payload)\<rparr>)"
proof -
  let ?n = "word_of_nat (length payload) :: uint32"
  let ?hdr = "tag ''ecg '' @ le32 ?n"
  have d': "drop i data = ?hdr @ payload @ le32 (calcChecksum (?hdr @ payload)) @ rest"
    using d by (simp only: block_layout)
  have un: "unat ?n = length payload"
    using lt by (simp add: unat_of_nat)
  have half: "2 * unat (?n div 2) = length payload"
    using ev un by (simp add: unat_div)
  have rr: "read_record data i ?n (i + 8) (length payload) =
      Return (i + 12 + length payload, payload)"
    by (rule read_record_ok [OF d']) (simp_all add: un)
  have "tag ''ecg '' \<noteq> tag ''fmt ''" "tag ''ecg '' \<noteq> tag ''info''"
    by (simp_all add: tag_def)
  then have sw: "switch_block data i (decode_BlockHeader ?hdr) (i + 8) st =
      Return (i + 12 + length payload, st\<lparr>leadISamples := Some (decode_int16s payload)\<rparr>)"
    using rr by (simp add: switch_block_def decode_BlockHeader_tag read_samples_def half)
  show ?thesis
    by (subst read_blocks_header [OF d']) (simp_all add: sw)
qed

subsection \<open>Parse, by the length of the input\<close>

lemma zero_signature: "replicate 8 (0 :: byte) \<noteq> AtcFileSignature"
proof -
  have "replicate 8 (0 :: byte) = [0, 0, 0, 0, 0, 0, 0, 0]"
    by (simp add: eval_nat_numeral)
  then show ?thesis by (simp add: AtcFileSignature_def)
qed

lemma Parse_short: "length data < 12 \<Longrightarrow> Parse data = Fail WrongFileSignature"
  using zero_signature
  by (auto simp: Parse_def read_AtcFileHeader_def ReadFull_def)

lemma Parse_long:
  assumes "12 \<le> length data"
  shows "Parse data =
     (if take 8 data \<noteq> AtcFileSignature then Fail WrongFileSignature
      else (case read_blocks data 12 initial_state of
              Return st \<Rightarrow> build_result st
            | Fail e \<Rightarrow> Fail e
            | Panic p \<Rightarrow> Panic p))"
proof -
  from assms have "ReadFull data 0 12 = (12, Inr (take 12 data))"
    by (auto simp: ReadFull_def)
  then show ?thesis
    by (simp add: Parse_def read_AtcFileHeader_def decode_AtcFileHeader_def)
qed

lemma Parse_Return:
  assumes "Parse data = Return doc"
  shows "\<exists>st. read_blocks data 12 initial_state = Return st \<and> build_result st = Return doc"
proof (cases "length data < 12")
  case True
  with assms show ?thesis by (simp add: Parse_short)
next
  case False
  with assms show ?thesis
    by (auto simp: Parse_long split: if_splits outcome.splits)
qed

lemma build_result_Return:
  assumes "build_result st = Return doc"
  shows "\<exists>fb. fmtBlock st = Some fb
     \<and> EcgFrequency doc = float32_of_uint16 (Frequency fb)
     \<and> MainsFrequency doc = (if Flags fb AND 2 \<noteq> 0 then 60 else 50)
     \<and> Gain doc = gain_of_resolution (Resolution fb)
     \<and> LeadI (Samples doc) = leadISamples st
     \<and> LeadII (Samples doc) = leadIISamples st
     \<and> LeadIII (Samples doc) = leadIIISamples st
     \<and> AVR (Samples doc) = aVRSamples st
     \<and> AVL (Samples doc) = aVLSamples st
     \<and> AVF (Samples doc) = aVFSamples st
     \<and> Info doc = infoBlock st"
  using assms by (auto simp: build_result_def split: option.splits)

lemma flags_bit1: "(w AND 2 \<noteq> 0) = bit (w :: byte) 1"
  using bit_iff_and_push_bit_not_eq_0 [of w 1] by simp

lemma atc_file_Parse:
  "Parse (atc_file version blocks) =
     (case read_blocks (atc_file version blocks) 12 initial_state of
        Return st \<Rightarrow> build_result st
      | Fail e \<Rightarrow> Fail e
      | Panic p \<Rightarrow> Panic p)"
  by (simp add: Parse_long atc_file_def AtcFileSignature_def)

lemma drop_atc_file: "drop (12 + n) (atc_file version blocks) = drop n (concat blocks)"
proof -
  have "drop (12 + n) (atc_file version blocks) = drop n (drop 12 (atc_file version blocks))"
    by (simp add: add.commute)
  also have "drop 12 (atc_file version blocks) = concat blocks"
    by (simp add: atc_file_def AtcFileSignature_def le32_def)
  finally show ?thesis .
qed

lemma length_atc_file: "length (atc_file version blocks) = 12 + length (concat blocks)"
  by (simp add: atc_file_def AtcFileSignature_def)

lemma Parse_fmt_file:
  "Parse (atc_file version [block ''fmt '' (encode_FmtBlock fb)]) =
     build_result (initial_state\<lparr>fmtBlock := Some fb\<rparr>)"
proof -
  let ?f = "block ''fmt '' (encode_FmtBlock fb)"
  let ?data = "atc_file version [?f]"
  have d12: "drop 12 ?data = ?f @ []"
    using drop_atc_file [of 0 version "[?f]"] by simp
  have s1: "read_blocks ?data 12 initial_state =
      read_blocks ?data (12 + 20) (initial_state\<lparr>fmtBlock := Some fb\<rparr>)"
    using read_blocks_fmt [OF d12, of initial_state] by (simp add: decode_encode_FmtBlock)
  have s2: "read_blocks ?data (12 + 20) (initial_state\<lparr>fmtBlock := Some fb\<rparr>) =
      Return (initial_state\<lparr>fmtBlock := Some fb\<rparr>)"
    by (rule read_blocks_end) (simp add: length_atc_file)
  show ?thesis
    by (simp only: atc_file_Parse s1 s2) simp
qed

subsection \<open>The loop reads nothing before offset 12\<close>

lemma drop_tail:
  assumes "drop 12 data = drop 12 data'" and "12 \<le> i"
  shows "drop i data = drop i data'"
proof -
  have "drop i data = drop (i - 12) (drop 12 data)" using assms(2) by simp
  also have "\<dots> = drop (i - 12) (drop 12 data')" by (simp only: assms(1))
  also have "\<dots> = drop i data'" using assms(2) by simp
  finally show ?thesis .
qed

lemma ReadFull_tail:
  assumes "length data = length data'" and "drop 12 data = drop 12 data'" and "12 \<le> i"
  shows "ReadFull data i n = ReadFull data' i n"
  using assms(1) drop_tail [OF assms(2,3)] by (simp add: ReadFull_def)

lemma Reader_Read_tail:
  assumes "length data = length data'"
  shows "Reader_Read data i n = Reader_Read data' i n"
  using assms by (simp add: Reader_Read_def)

lemma verifyChecksum_tail:
  assumes "length data = length data'" and "drop 12 data = drop 12 data'"
    and "12 \<le> blockStart" and "12 \<le> i"
  shows "verifyChecksum data blockStart blockLen i = verifyChecksum data' blockStart blockLen i"
  unfolding verifyChecksum_def read_uint32_def
    drop_tail [OF assms(2,3)] ReadFull_tail [OF assms(1,2,4)] assms(1) ..

lemma read_record_tail:
  assumes "length data = length data'" and "drop 12 data = drop 12 data'"
    and "12 \<le> blockStart" and "12 \<le> i"
  shows "read_record data blockStart blockLen i n = read_record data' blockStart blockLen i n"
proof -
  have "verifyChecksum data blockStart blockLen i' = verifyChecksum data' blockStart blockLen i'"
    if "ReadFull data' i n = (i', r)" for i' r
    using that assms by (intro verifyChecksum_tail) (auto dest: ReadFull_mono)
  then show ?thesis
    using ReadFull_tail [OF assms(1,2,4)]
    by (auto simp: read_record_def split: prod.splits sum.splits)
qed

lemma switch_block_tail:
  assumes "length data = length data'" and "drop 12 data = drop 12 data'"
    and "12 \<le> blockStart" and "12 \<le> i"
  shows "switch_block data blockStart h i st = switch_block data' blockStart h i st"
  unfolding switch_block_def read_samples_def
    read_record_tail [OF assms] Reader_Read_tail [OF assms(1)] ..

lemma read_blocks_tail:
  assumes "length data = length data'" and "drop 12 data = drop 12 data'" and "12 \<le> i"
  shows "read_blocks data i st = read_blocks data' i st"
  using assms
proof (induction data i st rule: read_blocks.induct)
  case (1 data i st)
  note rf = ReadFull_tail [OF "1.prems"]
  note unf = read_blocks.simps [of data i st] read_blocks.simps [of data' i st]
  show ?case
  proof (cases "ReadFull data i 8")
    case (Pair i' r)
    then have i': "12 \<le> i'" using "1.prems"(3) by (auto dest: ReadFull_mono)
    show ?thesis
    proof (cases r)
      case (Inl e)
      with Pair rf [of 8] show ?thesis
        by (simp add: unf)
    next
      case (Inr b)
      have sw: "switch_block data i (decode_BlockHeader b) i' st =
          switch_block data' i (decode_BlockHeader b) i' st"
        by (rule switch_block_tail [OF "1.prems"(1,2,3) i'])
      show ?thesis
      proof (cases "switch_block data i (decode_BlockHeader b) i' st")
        case (Return y)
        obtain i'' st' where y: "y = (i'', st')" by (cases y)
        with Return have "i' \<le> i''" by (auto dest: switch_block_mono)
        with i' have "12 \<le> i''" by simp
        then have "read_blocks data i'' st' = read_blocks data' i'' st'"
          using "1.IH" [OF Pair [symmetric] Inr Return y [symmetric]] "1.prems"(1,2) by simp
        with Pair Inr Return y sw [symmetric] rf [of 8] show ?thesis
          by (simp add: unf)
      next
        case (Fail e)
        with Pair Inr sw [symmetric] rf [of 8] show ?thesis
          by (simp add: unf)
      next
        case (Panic p)
        with Pair Inr sw [symmetric] rf [of 8] show ?thesis
          by (simp add: unf)
      qed
    qed
  qed
qed

subsection \<open>The example files are laid out as described\<close>

lemma fmt_only_file_layout:
  "fmt_only_file = atc_file 1 [block ''fmt '' (encode_FmtBlock fmt_300Hz)]"
  by code_simp

lemma fmt_ecg_file_layout:
  "fmt_ecg_file =
     atc_file 1 [block ''fmt '' (encode_FmtBlock fmt_300Hz),
                 block ''ecg '' (encode_int16s [1, 0xFFFF])]"
  by code_simp

section \<open>C1: the checksum sums unsigned bytes\<close>

lemma foldl_checksum:
  "foldl (\<lambda>(sum :: int32) (b :: byte). sum + ucast b) a bs =
     a + word_of_nat (sum_list (map unat bs))"
  by (induction bs arbitrary: a) (simp_all add: add.assoc)

lemma calcChecksum_unsigned: "calcChecksum bs = unsigned_byte_sum bs"
  by (simp add: calcChecksum_def unsigned_byte_sum_def foldl_checksum)

text \<open>The repository's own test of \<^verbatim>\<open>calcChecksum\<close>: the bytes \<open>'A', 2, 3, 'z'\<close> sum to 192.\<close>

lemma TestCalcChecksum: "calcChecksum [0x41, 2, 3, 0x7A] = 192"
  by (simp add: calcChecksum_def)

lemma sint_byte: "sint (b :: byte) = uint b - (if 0x80 \<le> b then 256 else 0)"
proof -
  have lt: "uint b < 256" using uint_bounded [of b] by simp
  have ge: "0 \<le> uint b" by simp
  have le: "(0x80 \<le> b) = (128 \<le> uint b)" by (simp add: word_le_def)
  have bit7: "bit (uint b) 7 = (128 \<le> uint b)"
  proof -
    have "uint b div 128 = (if 128 \<le> uint b then 1 else 0)"
      using lt ge by auto
    then show ?thesis by (simp add: bit_iff_odd)
  qed
  have tb: "take_bit 8 (uint b) = uint b"
    using lt ge by (simp add: take_bit_int_eq_self)
  have "sint b = signed_take_bit 7 (uint b)" by (simp add: sint_uint)
  also have "\<dots> = take_bit (Suc 7) (uint b) - 2 ^ Suc 7 * of_bool (bit (uint b) 7)"
    by (rule signed_take_bit_eq_take_bit_minus)
  also have "\<dots> = uint b - (if 128 \<le> uint b then 256 else 0)"
    using tb bit7 by simp
  finally show ?thesis by (simp add: le)
qed

lemma signed_plus_high_bytes:
  "signed_byte_sum bs + 256 * word_of_nat (length (filter (\<lambda>b. 0x80 \<le> b) bs)) =
     unsigned_byte_sum bs"
proof -
  have "sum_list (map sint bs) + 256 * int (length (filter (\<lambda>b. 0x80 \<le> b) bs)) =
      int (sum_list (map unat bs))"
    by (induction bs) (auto simp: sint_byte)
  then have "word_of_int (sum_list (map sint bs)
        + 256 * int (length (filter (\<lambda>b. 0x80 \<le> b) bs))) =
      (word_of_int (int (sum_list (map unat bs))) :: uint32)"
    by simp
  then show ?thesis
    by (simp add: signed_byte_sum_def unsigned_byte_sum_def)
qed

text \<open>
  C1, as the specification states it, fails: \<^verbatim>\<open>verifyChecksum\<close> accepts the block
  \<open>high_byte_block\<close>, whose stored checksum, 465, is not the sum of its bytes read as
  signed 8-bit integers, 209.
\<close>

theorem signed_checksum_counterexample:
  "verifyChecksum high_byte_block 0 2 10 = Return 14
   \<and> snd (read_uint32 high_byte_block 10) \<noteq> signed_byte_sum (take 10 high_byte_block)"
  by (simp add: verifyChecksum_def read_uint32_def ReadFull_def high_byte_block_def tag_def
      Uint32_def calcChecksum_def signed_byte_sum_def)

text \<open>
  C1, amended: for every block \<^verbatim>\<open>verifyChecksum\<close> checks, the expected checksum is the
  sum modulo \<open>2 ^ 32\<close>, over the 8 bytes of the block header and the declared length of
  payload, of every byte read as an unsigned 8-bit integer; the stored checksum is
  compared with it. The sum of the bytes read as signed integers is smaller by 256 for
  every byte from \<open>0x80\<close> on, and differs from it for the payload of one byte \<open>0x80\<close>.
\<close>

theorem verifyChecksum_sums_unsigned_bytes:
  "verifyChecksum data blockStart blockLen i =
     (let expected = unsigned_byte_sum (take (8 + unat blockLen) (drop blockStart data));
          stored = snd (read_uint32 data i)
      in if length data < blockStart + 8 + unat blockLen then Panic SliceBoundsOutOfRange
         else if stored \<noteq> expected then Fail (ChecksumDoesNotMatch stored expected)
         else Return (fst (read_uint32 data i)))
   \<and> signed_byte_sum bs + 256 * word_of_nat (length (filter (\<lambda>b. 0x80 \<le> b) bs)) =
       unsigned_byte_sum bs
   \<and> signed_byte_sum [0x80] \<noteq> unsigned_byte_sum [0x80]"
proof -
  have "signed_byte_sum [0x80] \<noteq> unsigned_byte_sum [0x80]"
    by (simp add: signed_byte_sum_def unsigned_byte_sum_def)
  then show ?thesis
    by (simp add: verifyChecksum_def Let_def calcChecksum_unsigned signed_plus_high_bytes
        split: prod.splits)
qed

section \<open>C2: a file without a format block\<close>

text \<open>
  C2 says that \<^verbatim>\<open>Parse\<close> returns a \<open>FormatError\<close>, and never crashes, when the block loop
  ends without a format block. The code dereferences the \<^verbatim>\<open>nil\<close> format block instead:
  on a file that is a header and nothing else, \<^verbatim>\<open>Parse\<close> panics.
\<close>

theorem Parse_no_fmt_block_panics: "Parse header_only_file = Panic NilPointerDereference"
  by code_simp

section \<open>C3: a wrong signature\<close>

text \<open>
  C3: for every buffer that does not begin with the 8 bytes of the signature, buffers
  shorter than the 12-byte header included, \<^verbatim>\<open>Parse\<close> fails with the error of a wrong file
  signature, a \<open>FormatError\<close>; the result does not depend on any block.
\<close>

theorem Parse_wrong_signature:
  assumes "take 8 data \<noteq> AtcFileSignature"
  shows "Parse data = Fail WrongFileSignature \<and> kind_of WrongFileSignature = FormatError"
proof (cases "length data < 12")
  case True
  then show ?thesis by (simp add: Parse_short)
next
  case False
  then show ?thesis using assms by (simp add: Parse_long)
qed

theorem Parse_wrong_signature_witness:
  "Parse [0x41, 0x4C, 0x49, 0x56, 0x46, 0, 0, 0, 1, 0, 0, 0, 0x66] = Fail WrongFileSignature
   \<and> kind_of WrongFileSignature = FormatError"
  by (rule Parse_wrong_signature) (simp add: AtcFileSignature_def)

section \<open>C4: a format block and one block of samples\<close>

lemma Parse_fmt_then_ecg:
  assumes "2 * length samples < 2 ^ 32"
  shows "Parse (atc_file version
            [block ''fmt '' (encode_FmtBlock fb), block ''ecg '' (encode_int16s samples)]) =
     build_result (initial_state\<lparr>fmtBlock := Some fb, leadISamples := Some samples\<rparr>)"
proof -
  let ?f = "block ''fmt '' (encode_FmtBlock fb)"
  let ?e = "block ''ecg '' (encode_int16s samples)"
  let ?data = "atc_file version [?f, ?e]"
  have d12: "drop 12 ?data = ?f @ ?e"
    using drop_atc_file [of 0 version "[?f, ?e]"] by simp
  have d32: "drop (12 + 20) ?data = ?e @ []"
    using drop_atc_file [of 20 version "[?f, ?e]"] by simp
  have len: "length ?data = 12 + 20 + 12 + length (encode_int16s samples)"
    by (simp add: length_atc_file)
  have s1: "read_blocks ?data 12 initial_state =
      read_blocks ?data (12 + 20) (initial_state\<lparr>fmtBlock := Some fb\<rparr>)"
    using read_blocks_fmt [OF d12, of initial_state] by (simp add: decode_encode_FmtBlock)
  have s2: "read_blocks ?data (12 + 20) (initial_state\<lparr>fmtBlock := Some fb\<rparr>) =
      read_blocks ?data (12 + 20 + 12 + length (encode_int16s samples))
        (initial_state\<lparr>fmtBlock := Some fb, leadISamples := Some samples\<rparr>)"
    using read_blocks_ecg [OF d32, of "initial_state\<lparr>fmtBlock := Some fb\<rparr>"] assms
    by (simp add: decode_encode_int16s)
  have s3: "read_blocks ?data (12 + 20 + 12 + length (encode_int16s samples))
        (initial_state\<lparr>fmtBlock := Some fb, leadISamples := Some samples\<rparr>) =
      Return (initial_state\<lparr>fmtBlock := Some fb, leadISamples := Some samples\<rparr>)"
    by (rule read_blocks_end) (simp add: len)
  show ?thesis
    by (simp only: atc_file_Parse s1 s2 s3) simp
qed

lemma Parse_ecg_then_fmt:
  assumes "2 * length samples < 2 ^ 32"
  shows "Parse (atc_file version
            [block ''ecg '' (encode_int16s samples), block ''fmt '' (encode_FmtBlock fb)]) =
     build_result (initial_state\<lparr>leadISamples := Some samples, fmtBlock := Some fb\<rparr>)"
proof -
  let ?f = "block ''fmt '' (encode_FmtBlock fb)"
  let ?e = "block ''ecg '' (encode_int16s samples)"
  let ?n = "length (encode_int16s samples)"
  let ?data = "atc_file version [?e, ?f]"
  have d12: "drop 12 ?data = ?e @ ?f"
    using drop_atc_file [of 0 version "[?e, ?f]"] by simp
  have d2: "drop (12 + (12 + ?n)) ?data = ?f @ []"
    using drop_atc_file [of "12 + ?n" version "[?e, ?f]"] by simp
  have len: "length ?data = 12 + (12 + ?n) + 20"
    by (simp add: length_atc_file)
  have s1: "read_blocks ?data 12 initial_state =
      read_blocks ?data (12 + (12 + ?n)) (initial_state\<lparr>leadISamples := Some samples\<rparr>)"
    using read_blocks_ecg [OF d12, of initial_state] assms
    by (simp add: decode_encode_int16s add.assoc)
  have s2: "read_blocks ?data (12 + (12 + ?n)) (initial_state\<lparr>leadISamples := Some samples\<rparr>) =
      read_blocks ?data (12 + (12 + ?n) + 20)
        (initial_state\<lparr>leadISamples := Some samples, fmtBlock := Some fb\<rparr>)"
    using read_blocks_fmt [OF d2, of "initial_state\<lparr>leadISamples := Some samples\<rparr>"]
    by (simp add: decode_encode_FmtBlock)
  have s3: "read_blocks ?data (12 + (12 + ?n) + 20)
        (initial_state\<lparr>leadISamples := Some samples, fmtBlock := Some fb\<rparr>) =
      Return (initial_state\<lparr>leadISamples := Some samples, fmtBlock := Some fb\<rparr>)"
    by (rule read_blocks_end) (simp add: len)
  show ?thesis
    by (simp only: atc_file_Parse s1 s2 s3) simp
qed

text \<open>
  C4: for every file that is the 12-byte header, one block \<open>fmt\<close> and one block \<open>ecg\<close> of
  \<open>N\<close> samples (\<open>2 * N\<close> fitting the 32-bit length), in either order, each block with
  the checksum the code computes, \<^verbatim>\<open>Parse\<close> returns a document whose \<open>LeadI\<close> is the list of
  the \<open>N\<close> samples, in order, each read from its two bytes with the low byte first, and
  whose five other leads are \<^verbatim>\<open>nil\<close>.
\<close>

theorem Parse_fmt_ecg_file:
  assumes "2 * length samples < 2 ^ 32"
    and "blocks = [block ''fmt '' (encode_FmtBlock fb), block ''ecg '' (encode_int16s samples)]
       \<or> blocks = [block ''ecg '' (encode_int16s samples), block ''fmt '' (encode_FmtBlock fb)]"
  shows "Parse (atc_file version blocks) =
     Return
       \<lparr>EcgFrequency = float32_of_uint16 (Frequency fb),
        MainsFrequency = (if bit (Flags fb) 1 then 60 else 50),
        Gain = gain_of_resolution (Resolution fb),
        Samples = \<lparr>LeadI = Some samples, LeadII = None, LeadIII = None, AVR = None,
                    AVL = None, AVF = None\<rparr>,
        Info = None\<rparr>"
  using assms(2) Parse_fmt_then_ecg [OF assms(1)] Parse_ecg_then_fmt [OF assms(1)]
  by (auto simp: build_result_def initial_state_def flags_bit1)

text \<open>
  The theorem at the file \<open>fmt_ecg_file\<close>, given byte by byte: the samples are 1 and
  \<open>0xFFFF\<close>, which is -1 as a signed 16-bit integer.
\<close>

theorem Parse_fmt_ecg_file_witness:
  "Parse fmt_ecg_file =
     Return
       \<lparr>EcgFrequency = Finite 300, MainsFrequency = 60, Gain = Finite 2000,
        Samples = \<lparr>LeadI = Some [1, 0xFFFF], LeadII = None, LeadIII = None, AVR = None,
                    AVL = None, AVF = None\<rparr>,
        Info = None\<rparr>
   \<and> map sint [1, 0xFFFF :: int16] = [1, - 1]"
proof -
  have g: "gain_of_resolution 500 = Finite 2000" by code_simp
  have "Parse (atc_file 1 [block ''fmt '' (encode_FmtBlock fmt_300Hz),
          block ''ecg '' (encode_int16s [1, 0xFFFF])]) =
     Return
       \<lparr>EcgFrequency = float32_of_uint16 (Frequency fmt_300Hz),
        MainsFrequency = (if bit (Flags fmt_300Hz) 1 then 60 else 50),
        Gain = gain_of_resolution (Resolution fmt_300Hz),
        Samples = \<lparr>LeadI = Some [1, 0xFFFF], LeadII = None, LeadIII = None, AVR = None,
                    AVL = None, AVF = None\<rparr>,
        Info = None\<rparr>"
    by (rule Parse_fmt_ecg_file) simp_all
  then show ?thesis
    by (simp add: fmt_ecg_file_layout fmt_300Hz_def float32_of_uint16_def g)
qed

section \<open>C5: the mains frequency\<close>

text \<open>
  C5: whenever \<^verbatim>\<open>Parse\<close> returns a document, the block loop has ended with a format block,
  and the mains frequency of the document is 60 when bit 1 of the flags byte of that block
  is set and 50 when it is not. Every flags byte occurs: the file of one format block with
  any field values, its flags byte among them, is parsed to such a document.
\<close>

theorem MainsFrequency_bit1:
  "(Parse data = Return doc \<longrightarrow>
      (\<exists>st fb. read_blocks data 12 initial_state = Return st \<and> fmtBlock st = Some fb
         \<and> MainsFrequency doc = (if bit (Flags fb) 1 then 60 else 50)))
   \<and> Parse (atc_file version [block ''fmt '' (encode_FmtBlock fb')]) =
      Return
        \<lparr>EcgFrequency = float32_of_uint16 (Frequency fb'),
         MainsFrequency = (if bit (Flags fb') 1 then 60 else 50),
         Gain = gain_of_resolution (Resolution fb'),
         Samples = \<lparr>LeadI = None, LeadII = None, LeadIII = None, AVR = None, AVL = None,
                     AVF = None\<rparr>,
         Info = None\<rparr>"
proof -
  have "\<exists>st fb. read_blocks data 12 initial_state = Return st \<and> fmtBlock st = Some fb
         \<and> MainsFrequency doc = (if bit (Flags fb) 1 then 60 else 50)"
    if "Parse data = Return doc"
  proof -
    from Parse_Return [OF that] obtain st
      where st: "read_blocks data 12 initial_state = Return st" "build_result st = Return doc"
      by blast
    from build_result_Return [OF st(2)] obtain fb
      where "fmtBlock st = Some fb"
        "MainsFrequency doc = (if Flags fb AND 2 \<noteq> 0 then 60 else 50)"
      by blast
    with st(1) show ?thesis by (auto simp: flags_bit1)
  qed
  then show ?thesis
    by (simp add: Parse_fmt_file build_result_def initial_state_def flags_bit1)
qed

text \<open>The theorem at the file \<open>fmt_only_file\<close>, whose flags byte is 2.\<close>

theorem MainsFrequency_bit1_witness:
  "Parse fmt_only_file = Return (document_300Hz None None)
   \<and> (\<exists>st fb. read_blocks fmt_only_file 12 initial_state = Return st \<and> fmtBlock st = Some fb
         \<and> Flags fb = 2
         \<and> MainsFrequency (document_300Hz None None) = (if bit (Flags fb) 1 then 60 else 50))"
proof -
  have p: "Parse fmt_only_file = Return (document_300Hz None None)" by code_simp
  have r: "read_blocks fmt_only_file 12 initial_state = Return (initial_state\<lparr>fmtBlock := Some fmt_300Hz\<rparr>)"
    by code_simp
  from MainsFrequency_bit1 [of fmt_only_file "document_300Hz None None"] p
  have "\<exists>st fb. read_blocks fmt_only_file 12 initial_state = Return st \<and> fmtBlock st = Some fb
         \<and> MainsFrequency (document_300Hz None None) = (if bit (Flags fb) 1 then 60 else 50)"
    by blast
  with p r show ?thesis by (auto simp: fmt_300Hz_def)
qed

section \<open>C6: a sample block of odd length\<close>

text \<open>
  C6, as the specification states it, fails: the file \<open>odd_length_file\<close> has a block
  \<open>ecg2\<close> of declared length 3, and \<^verbatim>\<open>Parse\<close> returns a document, with one sample in
  \<open>LeadII\<close>. The code has no check of the parity: it reads \<open>Length / 2\<close> samples and
  then the checksum.
\<close>

theorem odd_length_counterexample:
  "Parse odd_length_file = Return (document_300Hz None (Some [156]))"
  by code_simp

lemma switch_block_sample_Fail:
  assumes "t \<in> set sample_tags" and "read_samples data blockStart n i = Fail e"
  shows "switch_block data blockStart \<lparr>BlockId = tag t, Length = n\<rparr> i st = Fail e"
  using assms by (auto simp: switch_block_def sample_tags_def tag_def)

lemma odd_half: "odd (unat (n :: uint32)) \<Longrightarrow> 2 * unat (n div 2) = unat n - 1"
  by (auto simp: unat_div elim: oddE)

text \<open>
  C6, amended: when the block loop reaches, at offset \<open>i\<close>, a sample block whose declared
  length \<open>n\<close> is odd and whose \<open>n\<close> payload bytes are in the buffer, the stored checksum
  is read from the last payload byte on (as 0 when fewer than 4 bytes are left there), and
  \<^verbatim>\<open>Parse\<close> fails whenever it differs from the checksum of the block header and the \<open>n\<close>
  payload bytes. The error is the checksum mismatch, a \<open>ChecksumError\<close>, not a
  \<open>FormatError\<close>.
\<close>

theorem odd_sample_block_checksum:
  assumes sig: "take 8 data = AtcFileSignature"
    and reach: "read_blocks data 12 initial_state = read_blocks data i st"
    and start: "12 \<le> i"
    and hdr: "take 8 (drop i data) = tag t @ le32 n"
    and t: "t \<in> set sample_tags"
    and odd: "odd (unat n)"
    and inb: "i + 8 + unat n \<le> length data"
    and neq: "snd (read_uint32 data (i + 7 + unat n)) \<noteq>
        calcChecksum (take (8 + unat n) (drop i data))"
  shows "Parse data =
       Fail (ChecksumDoesNotMatch (snd (read_uint32 data (i + 7 + unat n)))
         (calcChecksum (take (8 + unat n) (drop i data))))
     \<and> kind_of (ChecksumDoesNotMatch (snd (read_uint32 data (i + 7 + unat n)))
         (calcChecksum (take (8 + unat n) (drop i data)))) = ChecksumError"
proof -
  let ?e = "ChecksumDoesNotMatch (snd (read_uint32 data (i + 7 + unat n)))
         (calcChecksum (take (8 + unat n) (drop i data)))"
  have pos: "0 < unat n" using odd by (cases "unat n") auto
  have t4: "length t = 4" using t by (auto simp: sample_tags_def)
  have rf8: "ReadFull data i 8 = (i + 8, Inr (tag t @ le32 n))"
    using inb hdr by (simp add: ReadFull_def)
  have rfp: "ReadFull data (i + 8) (unat n - 1) =
      (i + 7 + unat n, Inr (take (unat n - 1) (drop (i + 8) data)))"
    using inb pos by (auto simp: ReadFull_def)
  have vc: "verifyChecksum data i n (i + 7 + unat n) = Fail ?e"
    using inb neq by (auto simp: verifyChecksum_def Let_def split: prod.splits)
  have rs: "read_samples data i n (i + 8) = Fail ?e"
    using rfp vc by (simp add: read_samples_def read_record_def odd_half [OF odd])
  have sw: "switch_block data i (decode_BlockHeader (tag t @ le32 n)) (i + 8) st = Fail ?e"
    using switch_block_sample_Fail [OF t rs] by (simp add: decode_BlockHeader_tag t4)
  have "read_blocks data i st = Fail ?e"
    by (subst read_blocks.simps) (simp add: rf8 sw)
  moreover have "12 \<le> length data" using start inb by simp
  ultimately show ?thesis
    using sig reach by (simp add: Parse_long)
qed

text \<open>The theorem at the file \<open>odd_length_mismatch_file\<close>.\<close>

theorem odd_sample_block_checksum_witness:
  "Parse odd_length_mismatch_file = Fail (ChecksumDoesNotMatch 2 359)
   \<and> kind_of (ChecksumDoesNotMatch 2 359) = ChecksumError"
proof -
  let ?st = "initial_state\<lparr>fmtBlock := Some fmt_300Hz\<rparr>"
  have sig: "take 8 odd_length_mismatch_file = AtcFileSignature"
    by code_simp
  have reach: "read_blocks odd_length_mismatch_file 12 initial_state =
      read_blocks odd_length_mismatch_file 32 ?st"
    by code_simp
  have hdr: "take 8 (drop 32 odd_length_mismatch_file) = tag ''ecg2'' @ le32 3"
    by code_simp
  have t: "''ecg2'' \<in> set sample_tags"
    by (simp add: sample_tags_def)
  have u: "unat (3 :: uint32) = 3" by simp
  have inb: "32 + 8 + unat (3 :: uint32) \<le> length odd_length_mismatch_file"
    by (simp add: odd_length_mismatch_file_def fmt_only_file_def)
  have stored: "snd (read_uint32 odd_length_mismatch_file (32 + 7 + unat (3 :: uint32))) = 2"
    unfolding u by code_simp
  have sum: "calcChecksum (take (8 + unat (3 :: uint32)) (drop 32 odd_length_mismatch_file)) = 359"
    unfolding u by code_simp
  from odd_sample_block_checksum [OF sig reach _ hdr t _ inb] stored sum
  show ?thesis by simp
qed

section \<open>C7: a block of an unknown tag\<close>

text \<open>
  What the loop does at a block of an unknown tag whose header is in the buffer: an error
  when nothing follows the header, and otherwise a skip of \<open>Length + 4\<close> bytes, computed
  in 32 bits, or of the bytes that are left when they are fewer.
\<close>

lemma unknown_block_step:
  assumes hdr: "take 8 (drop i data) = tg @ le32 n" and tg: "length tg = 4"
    and unknown: "tg \<notin> set (map tag (''fmt '' # ''info'' # sample_tags))"
    and inb: "i + 8 \<le> length data"
  shows "read_blocks data i st =
     (if length data = i + 8 then Fail (ErrorReadingInput EOF)
      else read_blocks data (i + 8 + min (unat (n + 4)) (length data - (i + 8))) st)"
proof -
  have rf8: "ReadFull data i 8 = (i + 8, Inr (tg @ le32 n))"
    using inb hdr by (simp add: ReadFull_def)
  have dh: "decode_BlockHeader (tg @ le32 n) = \<lparr>BlockId = tg, Length = n\<rparr>"
    using Uint32_le32 [of n "[]"] tg by (simp add: decode_BlockHeader_def)
  have sw: "switch_block data i \<lparr>BlockId = tg, Length = n\<rparr> (i + 8) st =
      (case Reader_Read data (i + 8) (unat (n + ChecksumLength)) of
         (i', Inl e) \<Rightarrow> Fail (ErrorReadingInput e)
       | (i', Inr k) \<Rightarrow> Return (i', st))"
    using unknown by (simp add: switch_block_def sample_tags_def)
  show ?thesis
    using inb
    by (subst read_blocks.simps)
      (auto simp: rf8 dh sw Reader_Read_def ChecksumLength_def)
qed

text \<open>
  C7 says that \<^verbatim>\<open>Parse\<close> fails with a \<open>FormatError\<close> whenever fewer than \<open>Length + 4\<close>
  bytes follow the header of an unknown block. In the file \<open>short_skip_file\<close> the block
  \<open>junk\<close> declares 100 bytes and one byte follows: \<^verbatim>\<open>Parse\<close> returns a document.
\<close>

theorem Parse_short_skip_accepted:
  "Parse short_skip_file = Return (document_300Hz None None)"
  by code_simp

section \<open>C8: the fields of the output\<close>

text \<open>
  C8, as the specification states it, fails: in the document of the file
  \<open>fmt_only_file\<close> the lead \<open>LeadI\<close> and the info block are absent, and the output of
  \<^verbatim>\<open>Convert\<close> has the members \<open>leadI\<close> and \<open>Info\<close>, both \<^verbatim>\<open>null\<close>.
\<close>

theorem absent_fields_counterexample:
  "Parse fmt_only_file = Return (document_300Hz None None)
   \<and> LeadI (Samples (document_300Hz None None)) = None
   \<and> Info (document_300Hz None None) = None
   \<and> Convert fmt_only_file =
     Return (JObject
       [(''frequency'', JFloat 300), (''mainsFrequency'', JInt 60), (''gain'', JFloat 2000),
        (''samples'', JObject [(''leadI'', JNull)]), (''Info'', JNull)])"
  by code_simp

lemma field_omitempty:
  "map_of (omitempty key v) k =
     (if v = None \<or> v = Some [] \<or> k \<noteq> key then None else Some (marshal_int16s v))"
  by (simp add: omitempty_def)

lemma marshal_int16s_JNull: "(marshal_int16s v = JNull) = (v = None)"
  by (simp add: marshal_int16s_def split: option.splits)

lemma marshal_InfoBlock_JNull: "(marshal_InfoBlock v = JNull) = (v = None)"
  by (simp add: marshal_InfoBlock_def split: option.splits)

lemma field_marshal_EcgSamples:
  "field ''leadI'' (marshal_EcgSamples s) = Some (marshal_int16s (LeadI s))"
  "(field ''leadII'' (marshal_EcgSamples s) = None) = (LeadII s = None \<or> LeadII s = Some [])"
  "(field ''leadIII'' (marshal_EcgSamples s) = None) = (LeadIII s = None \<or> LeadIII s = Some [])"
  "(field ''aVR'' (marshal_EcgSamples s) = None) = (AVR s = None \<or> AVR s = Some [])"
  "(field ''aVL'' (marshal_EcgSamples s) = None) = (AVL s = None \<or> AVL s = Some [])"
  "(field ''aVF'' (marshal_EcgSamples s) = None) = (AVF s = None \<or> AVF s = Some [])"
  by (simp_all add: marshal_EcgSamples_def map_add_def field_omitempty split: option.splits)

text \<open>
  C8, amended: for every document that \<^verbatim>\<open>Parse\<close> returns with a finite gain, \<^verbatim>\<open>Convert\<close>
  returns an object with the members \<open>frequency\<close>, \<open>mainsFrequency\<close>, \<open>gain\<close>,
  \<open>samples\<close> and \<open>Info\<close>. \<open>Info\<close> is always there, \<^verbatim>\<open>null\<close> exactly when the document has
  no info block; so is \<open>leadI\<close> in \<open>samples\<close>, \<^verbatim>\<open>null\<close> exactly when the lead is absent.
  Each of the five other leads is left out of \<open>samples\<close> exactly when it is absent or
  empty.
\<close>

theorem Convert_field_presence:
  assumes "Parse data = Return doc" and "Gain doc \<noteq> PosInf"
  shows "\<exists>js smp. Convert data = Return js
     \<and> field ''frequency'' js \<noteq> None
     \<and> field ''mainsFrequency'' js = Some (JInt (MainsFrequency doc))
     \<and> field ''gain'' js \<noteq> None
     \<and> field ''samples'' js = Some smp
     \<and> field ''Info'' js = Some (marshal_InfoBlock (Info doc))
     \<and> (field ''Info'' js = Some JNull) = (Info doc = None)
     \<and> field ''leadI'' smp = Some (marshal_int16s (LeadI (Samples doc)))
     \<and> (field ''leadI'' smp = Some JNull) = (LeadI (Samples doc) = None)
     \<and> (field ''leadII'' smp = None) =
         (LeadII (Samples doc) = None \<or> LeadII (Samples doc) = Some [])
     \<and> (field ''leadIII'' smp = None) =
         (LeadIII (Samples doc) = None \<or> LeadIII (Samples doc) = Some [])
     \<and> (field ''aVR'' smp = None) =
         (AVR (Samples doc) = None \<or> AVR (Samples doc) = Some [])
     \<and> (field ''aVL'' smp = None) =
         (AVL (Samples doc) = None \<or> AVL (Samples doc) = Some [])
     \<and> (field ''aVF'' smp = None) =
         (AVF (Samples doc) = None \<or> AVF (Samples doc) = Some [])"
proof -
  from Parse_Return [OF assms(1)] obtain st where "build_result st = Return doc"
    by blast
  from build_result_Return [OF this] have "\<exists>f. EcgFrequency doc = Finite f"
    by (auto simp: float32_of_uint16_def)
  then obtain f where f: "EcgFrequency doc = Finite f" ..
  from assms(2) obtain g where g: "Gain doc = Finite g"
    by (cases "Gain doc") auto
  let ?js = "JObject
     [(''frequency'', JFloat f), (''mainsFrequency'', JInt (MainsFrequency doc)),
      (''gain'', JFloat g), (''samples'', marshal_EcgSamples (Samples doc)),
      (''Info'', marshal_InfoBlock (Info doc))]"
  have c: "Convert data = Return ?js"
    using assms(1) f g by (simp add: Convert_def Marshal_def marshal_float32_def)
  show ?thesis
    apply (rule exI [of _ ?js])
    apply (rule exI [of _ "marshal_EcgSamples (Samples doc)"])
    apply (simp add: c field_marshal_EcgSamples marshal_int16s_JNull marshal_InfoBlock_JNull)
    done
qed

text \<open>The theorem at the file \<open>fmt_ecg_file\<close>.\<close>

theorem Convert_field_presence_witness:
  "\<exists>js smp. Convert fmt_ecg_file = Return js
     \<and> field ''samples'' js = Some smp
     \<and> field ''Info'' js = Some JNull
     \<and> field ''leadI'' smp = Some (JArray [JInt 1, JInt (- 1)])
     \<and> field ''leadII'' smp = None"
proof -
  have p: "Parse fmt_ecg_file = Return (document_300Hz (Some [1, 0xFFFF]) None)"
    by code_simp
  have g: "Gain (document_300Hz (Some [1, 0xFFFF]) None) \<noteq> PosInf"
    by (simp add: document_300Hz_def)
  from Convert_field_presence [OF p g] show ?thesis
    by (auto simp: document_300Hz_def marshal_InfoBlock_def marshal_int16s_def)
qed

section \<open>C9: the file version\<close>

text \<open>
  C9: two buffers of the same length that agree on their first 8 bytes and from offset 12
  on, that is everywhere but in the four bytes of the version, have the same result of
  \<^verbatim>\<open>Parse\<close>: the same document, the same error or the same panic.
\<close>

theorem Parse_ignores_FileVersion:
  assumes "length data = length data'"
    and "take 8 data = take 8 data'"
    and "drop 12 data = drop 12 data'"
  shows "Parse data = Parse data'"
proof (cases "length data < 12")
  case True
  then show ?thesis using assms(1) by (simp add: Parse_short)
next
  case False
  then have "12 \<le> length data" "12 \<le> length data'" using assms(1) by simp_all
  then show ?thesis
    using read_blocks_tail [OF assms(1,3), of 12 initial_state] assms(2)
    by (simp add: Parse_long)
qed

text \<open>The theorem at the files \<open>fmt_only_file\<close> and \<open>fmt_only_file_v2\<close>, of versions 1 and 2.\<close>

theorem Parse_ignores_FileVersion_witness:
  "Parse fmt_only_file = Parse fmt_only_file_v2
   \<and> Parse fmt_only_file_v2 = Return (document_300Hz None None)
   \<and> fmt_only_file \<noteq> fmt_only_file_v2"
proof -
  have "Parse fmt_only_file = Parse fmt_only_file_v2"
    by (rule Parse_ignores_FileVersion)
      (simp_all add: fmt_only_file_def fmt_only_file_v2_def)
  moreover have "Parse fmt_only_file = Return (document_300Hz None None)"
    by code_simp
  ultimately show ?thesis
    by (simp add: fmt_only_file_def fmt_only_file_v2_def)
qed

section \<open>C10: a resolution of 0\<close>

text \<open>
  C10: for every input with the right signature on which the block loop ends with a format
  block of resolution 0, \<^verbatim>\<open>Parse\<close> returns a document, and the gain of the document is
  \<open>+Inf\<close>, the quotient of the floats \<open>1e6\<close> and 0.
\<close>

theorem Parse_zero_resolution:
  assumes "take 8 data = AtcFileSignature" and "12 \<le> length data"
    and "read_blocks data 12 initial_state = Return st"
    and "fmtBlock st = Some fb" and "Resolution fb = 0"
  shows "\<exists>doc. Parse data = Return doc \<and> Gain doc = PosInf"
  using assms by (simp add: Parse_long build_result_def gain_of_resolution_def)

text \<open>The theorem at the file \<open>zero_resolution_file\<close>.\<close>

theorem Parse_zero_resolution_witness:
  "\<exists>doc. Parse zero_resolution_file = Return doc \<and> Gain doc = PosInf"
proof (rule Parse_zero_resolution)
  show "take 8 zero_resolution_file = AtcFileSignature"
    by (simp add: zero_resolution_file_def AtcFileSignature_def)
  show "12 \<le> length zero_resolution_file"
    by (simp add: zero_resolution_file_def)
  show "read_blocks zero_resolution_file 12 initial_state =
      Return (initial_state\<lparr>fmtBlock := Some (fmt_300Hz\<lparr>Resolution := 0\<rparr>)\<rparr>)"
    by code_simp
  show "fmtBlock (initial_state\<lparr>fmtBlock := Some (fmt_300Hz\<lparr>Resolution := 0\<rparr>)\<rparr>) =
      Some (fmt_300Hz\<lparr>Resolution := 0\<rparr>)"
    by simp
  show "Resolution (fmt_300Hz\<lparr>Resolution := 0\<rparr>) = 0"
    by simp
qed

end
